theory Spec2Isabelle
  imports Main "HOL-Library.Word"
begin

section \<open>Exceptions and machine integers\<close>

text \<open>
  The exceptions of \<^verbatim>\<open>main.py\<close>, one constructor for each raise site, named after
  the error kinds of the specification:
  \<^item> \<open>InvalidCapacity\<close>: \<^verbatim>\<open>ValueError("Capacity ... is invalid")\<close> in \<^verbatim>\<open>MyStack.__init__\<close>;
  \<^item> \<open>StackOverflow\<close>: \<^verbatim>\<open>IndexError("Push failed - capacity reached")\<close> in \<^verbatim>\<open>push\<close>;
  \<^item> \<open>StackUnderflow\<close>: \<^verbatim>\<open>IndexError("Pop failed - stack is empty")\<close> in \<^verbatim>\<open>pop\<close>;
  \<^item> \<open>UnknownOperator\<close>: \<^verbatim>\<open>ValueError("Unknown operator")\<close> in \<^verbatim>\<open>eval_tokens\<close>;
  \<^item> \<open>MalformedExpression\<close>: \<^verbatim>\<open>IndexError("Not enough operator")\<close> in \<^verbatim>\<open>eval_tokens\<close>;
  three that NumPy raises on behalf of the code:
  \<^item> \<open>OverflowError\<close>: storing a Python integer outside the 64-bit range into the array;
  \<^item> \<open>ArrayIndexError\<close>: indexing the array out of its bounds;
  \<^item> \<open>NegativeDimensions\<close>: \<^verbatim>\<open>np.zeros\<close> with a negative length;
  and one that the interpreter raises:
  \<^item> \<open>RecursionError\<close>: the calls of \<^verbatim>\<open>mult\<close> nest deeper than the recursion limit allows.
\<close>

datatype error =
    InvalidCapacity
  | StackOverflow
  | StackUnderflow
  | UnknownOperator
  | MalformedExpression
  | OverflowError
  | ArrayIndexError
  | NegativeDimensions
  | RecursionError

text \<open>
  \<^verbatim>\<open>np.zeros([capacity], dtype=int)\<close> allocates signed 64-bit integers (NumPy's
  default integer on 64-bit Linux and macOS). What is read back from the array is a
  NumPy \<^verbatim>\<open>int64\<close> scalar, whose \<open>+\<close>, \<open>-\<close> and \<open>*\<close> wrap around with a warning only.
\<close>

type_synonym int64 = "64 word"

definition min_int64 :: int where
  "min_int64 = - 9223372036854775808"

definition max_int64 :: int where
  "max_int64 = 9223372036854775807"

definition in_int64 :: "int \<Rightarrow> bool" where
  "in_int64 v = (min_int64 \<le> v \<and> v \<le> max_int64)"

text \<open>
  An array index: NumPy counts a negative index from the end and raises outside
  \<open>[-n, n)\<close>.
\<close>

definition np_index :: "'a list \<Rightarrow> int \<Rightarrow> nat option" where
  "np_index arr i =
     (let n = int (length arr)
      in if 0 \<le> i \<and> i < n then Some (nat i)
         else if - n \<le> i \<and> i < 0 then Some (nat (n + i))
         else None)"

text \<open>\<^verbatim>\<open>arr[i] = v\<close>: the index is checked, then the value is converted to 64 bits.\<close>

definition np_setitem :: "int64 list \<Rightarrow> int \<Rightarrow> int \<Rightarrow> error + int64 list" where
  "np_setitem arr i v =
     (case np_index arr i of
        None \<Rightarrow> Inl ArrayIndexError
      | Some j \<Rightarrow> if in_int64 v then Inr (arr[j := word_of_int v]) else Inl OverflowError)"

text \<open>\<^verbatim>\<open>arr[i]\<close>.\<close>

definition np_getitem :: "int64 list \<Rightarrow> int \<Rightarrow> error + int64" where
  "np_getitem arr i =
     (case np_index arr i of None \<Rightarrow> Inl ArrayIndexError | Some j \<Rightarrow> Inr (arr ! j))"

text \<open>
  \<open>//\<close> on two \<^verbatim>\<open>int64\<close> scalars: NumPy does not raise. A zero divisor gives 0 (with a
  \<^verbatim>\<open>RuntimeWarning\<close>), the one overflowing quotient gives the minimum back, and every
  other quotient is rounded towards minus infinity.
\<close>

definition floor_divide :: "int64 \<Rightarrow> int64 \<Rightarrow> int64" where
  "floor_divide a b =
     (if b = 0 then 0
      else if a = word_of_int min_int64 \<and> b = - 1 then word_of_int min_int64
      else word_of_int (sint a div sint b))"

text \<open>\<^verbatim>\<open>abs\<close> on an \<^verbatim>\<open>int64\<close> scalar (the minimum is its own negation).\<close>

definition abs_int64 :: "int64 \<Rightarrow> int64" where
  "abs_int64 x = (if x <s 0 then - x else x)"

section \<open>MyStack\<close>

record MyStack =
  capacity :: int
  default_item :: int
  stack :: "int64 list"
  top_of_stack :: int

definition MAX_CAPACITY :: int where
  "MAX_CAPACITY = 100000"

definition DEFAULT_CAPACITY :: int where
  "DEFAULT_CAPACITY = 10"

definition validate_capacity :: "int \<Rightarrow> bool" where
  "validate_capacity c = (0 \<le> c \<and> c \<le> MAX_CAPACITY)"

text \<open>
  A method that can raise returns its outcome together with the object as the call
  leaves it, so that what a failed call did to the object can be stated.

  \<^verbatim>\<open>clear\<close> allocates a zeroed array of \<open>capacity\<close> cells and resets the top.
\<close>

definition clear :: "MyStack \<Rightarrow> (error + unit) \<times> MyStack" where
  "clear s =
     (if capacity s < 0 then (Inl NegativeDimensions, s)
      else (Inr (), s\<lparr>stack := replicate (nat (capacity s)) 0, top_of_stack := 0\<rparr>))"

text \<open>
  \<^verbatim>\<open>MyStack(default_item, capacity)\<close>. The fields \<open>stack\<close> and \<open>top_of_stack\<close> do not
  exist before \<^verbatim>\<open>clear\<close> sets them; the record starts them empty.
\<close>

definition init :: "int \<Rightarrow> int \<Rightarrow> error + MyStack" where
  "init item c =
     (if \<not> validate_capacity c then Inl InvalidCapacity
      else case clear \<lparr>capacity = c, default_item = item, stack = [], top_of_stack = 0\<rparr> of
             (Inl e, _) \<Rightarrow> Inl e
           | (Inr _, s) \<Rightarrow> Inr s)"

definition is_empty :: "MyStack \<Rightarrow> bool" where
  "is_empty s = (top_of_stack s = 0)"

definition is_full :: "MyStack \<Rightarrow> bool" where
  "is_full s = (top_of_stack s = capacity s)"

definition get_capacity :: "MyStack \<Rightarrow> int" where
  "get_capacity s = capacity s"

definition push :: "int \<Rightarrow> MyStack \<Rightarrow> (error + unit) \<times> MyStack" where
  "push item_to_push s =
     (if is_full s then (Inl StackOverflow, s)
      else case np_setitem (stack s) (top_of_stack s) item_to_push of
             Inl e \<Rightarrow> (Inl e, s)
           | Inr arr \<Rightarrow> (Inr (), s\<lparr>stack := arr, top_of_stack := top_of_stack s + 1\<rparr>))"

definition pop :: "MyStack \<Rightarrow> (error + int64) \<times> MyStack" where
  "pop s =
     (if is_empty s then (Inl StackUnderflow, s)
      else let s' = s\<lparr>top_of_stack := top_of_stack s - 1\<rparr>
           in (np_getitem (stack s') (top_of_stack s'), s'))"

section \<open>The multiply primitive\<close>

text \<open>
  \<^verbatim>\<open>RpnCalculator.mult(x, y)\<close> is a static method: called on Python integers it
  computes on unbounded integers. Here the recursion is written as the source has it and
  nothing else: no termination argument and no bound on its depth, so that whether the
  recursion as written comes to an end is a question of its own. A call that does not
  return is \<open>None\<close>.
\<close>

partial_function (option) mult :: "int \<Rightarrow> int \<Rightarrow> int option" where
  "mult x y =
     (if y = 0 \<or> x = 0 then Some 0
      else if x < 0 \<and> y < 0 then
        (let absolute_x = \<bar>x\<bar>;
             absolute_y = \<bar>x\<bar>
         in Option.bind (mult absolute_y (absolute_x - 1)) (\<lambda>r. Some (absolute_y + r)))
      else if y < 0 \<and> x > 0 then Option.bind (mult y (x - 1)) (\<lambda>r. Some (y + r))
      else Option.bind (mult x (y - 1)) (\<lambda>r. Some (x + r)))"

text \<open>
  Inside \<^verbatim>\<open>eval_tokens\<close> the operands of \<^verbatim>\<open>mult\<close> were popped from the array, so
  they are \<^verbatim>\<open>int64\<close> scalars and every \<open>abs\<close>, \<open>-\<close> and \<open>+\<close> of the body is the
  64-bit one. This is the function as the evaluator runs it, so it carries the
  interpreter's recursion limit too: \<open>depth\<close> is the number of nested calls of
  \<^verbatim>\<open>mult\<close> that the limit still allows where the evaluator runs (about a thousand less
  the frames of the callers, with the default limit). A call beyond it raises
  \<open>RecursionError\<close>, which nothing catches.
\<close>

fun mult_int64 :: "nat \<Rightarrow> int64 \<Rightarrow> int64 \<Rightarrow> error + int64" where
  "mult_int64 0 x y = Inl RecursionError"
| "mult_int64 (Suc depth) x y =
     (if y = 0 \<or> x = 0 then Inr 0
      else if x <s 0 \<and> y <s 0 then
        (let absolute_x = abs_int64 x;
             absolute_y = abs_int64 x
         in case mult_int64 depth absolute_y (absolute_x - 1) of
              Inl e \<Rightarrow> Inl e
            | Inr r \<Rightarrow> Inr (absolute_y + r))
      else if y <s 0 \<and> 0 <s x then
        (case mult_int64 depth y (x - 1) of Inl e \<Rightarrow> Inl e | Inr r \<Rightarrow> Inr (y + r))
      else
        (case mult_int64 depth x (y - 1) of Inl e \<Rightarrow> Inl e | Inr r \<Rightarrow> Inr (x + r)))"

section \<open>Tokens\<close>

text \<open>
  Strings are modelled over ASCII: a \<open>char\<close> is one code point below 128. For these,
  \<^verbatim>\<open>str.isspace\<close> holds of the code points 9 to 13 and 28 to 32, and the decimal
  digits are \<open>0\<close> to \<open>9\<close>.
\<close>

definition isspace :: "char \<Rightarrow> bool" where
  "isspace c = (let n = (of_char c :: nat) in (9 \<le> n \<and> n \<le> 13) \<or> (28 \<le> n \<and> n \<le> 32))"

definition isdigit :: "char \<Rightarrow> bool" where
  "isdigit c = (let n = (of_char c :: nat) in 48 \<le> n \<and> n \<le> 57)"

definition digit_value :: "char \<Rightarrow> nat" where
  "digit_value c = of_char c - 48"

text \<open>
  \<^verbatim>\<open>str.split()\<close> without a separator: the maximal runs of non-space characters, in
  order. \<open>word\<close> is the run being read.
\<close>

fun split_from :: "string \<Rightarrow> string \<Rightarrow> string list" where
  "split_from word [] = (if word = [] then [] else [word])"
| "split_from word (c # cs) =
     (if isspace c then (if word = [] then split_from [] cs else word # split_from [] cs)
      else split_from (word @ [c]) cs)"

definition str_split :: "string \<Rightarrow> string list" where
  "str_split s = split_from [] s"

text \<open>
  \<^verbatim>\<open>int(token)\<close> on a string: surrounding white space is dropped, then comes an optional
  sign and a non-empty run of digits in which single underscores may separate digits.
  \<open>None\<close> is the \<^verbatim>\<open>ValueError\<close> of the conversion. The white space the conversion
  drops from an ASCII string is that of C: the code points 9 to 13 and 32.
\<close>

definition int_space :: "char \<Rightarrow> bool" where
  "int_space c = (let n = (of_char c :: nat) in (9 \<le> n \<and> n \<le> 13) \<or> n = 32)"

fun digits_value :: "nat \<Rightarrow> string \<Rightarrow> nat option" where
  "digits_value acc [] = Some acc"
| "digits_value acc [c] = (if isdigit c then Some (10 * acc + digit_value c) else None)"
| "digits_value acc (c # d # cs) =
     (if isdigit c then digits_value (10 * acc + digit_value c) (d # cs)
      else if c = CHR ''_'' \<and> isdigit d then digits_value (10 * acc + digit_value d) cs
      else None)"

definition read_digits :: "string \<Rightarrow> nat option" where
  "read_digits s =
     (case s of
        [] \<Rightarrow> None
      | c # cs \<Rightarrow> if isdigit c then digits_value (digit_value c) cs else None)"

text \<open>
  The conversion refuses a string with more digits than the interpreter's limit on
  integer strings, 4300 by default, with a \<^verbatim>\<open>ValueError\<close> as well.
\<close>

definition max_str_digits :: nat where
  "max_str_digits = 4300"

definition int_digits :: "string \<Rightarrow> nat option" where
  "int_digits s =
     (if max_str_digits < length (filter isdigit s) then None else read_digits s)"

definition strip :: "string \<Rightarrow> string" where
  "strip s = rev (dropWhile int_space (rev (dropWhile int_space s)))"

definition py_int :: "string \<Rightarrow> int option" where
  "py_int token =
     (case strip token of
        [] \<Rightarrow> None
      | c # cs \<Rightarrow>
          if c = CHR ''-'' then map_option (\<lambda>n. - int n) (int_digits cs)
          else if c = CHR ''+'' then map_option int (int_digits cs)
          else map_option int (int_digits (c # cs)))"

text \<open>
  \<^verbatim>\<open>str(a)\<close> on an integer, the way an integer is written into an expression: decimal
  digits, after a minus sign when it is negative.
\<close>

definition digit_char :: "nat \<Rightarrow> char" where
  "digit_char d = char_of (48 + d)"

fun str_nat :: "nat \<Rightarrow> string" where
  "str_nat n = (if n < 10 then [digit_char n] else str_nat (n div 10) @ [digit_char (n mod 10)])"

definition str_int :: "int \<Rightarrow> string" where
  "str_int a = (if a < 0 then CHR ''-'' # str_nat (nat (- a)) else str_nat (nat a))"

declare str_nat.simps [simp del]

text \<open>A digit is not white space and not a sign.\<close>

definition plain_digit :: "char \<Rightarrow> bool" where
  "plain_digit c = (isdigit c \<and> \<not> int_space c \<and> c \<noteq> CHR ''-'' \<and> c \<noteq> CHR ''+'')"

section \<open>RpnCalculator\<close>

definition ADDITION :: string where
  "ADDITION = ''+''"

definition SUBTRACTION :: string where
  "SUBTRACTION = ''-''"

definition MULTIPLICATION :: string where
  "MULTIPLICATION = ''*''"

definition FLOOR :: string where
  "FLOOR = ''//''"

definition parse :: "string \<Rightarrow> string list" where
  "parse rpn_expression = str_split rpn_expression"

text \<open>A call on the stack inside the loop: an exception ends the evaluation.\<close>

definition continue :: "(error + 'a) \<times> MyStack \<Rightarrow> error + MyStack" where
  "continue r = (case r of (Inl e, _) \<Rightarrow> Inl e | (Inr _, s) \<Rightarrow> Inr s)"

text \<open>
  The body of the loop of \<^verbatim>\<open>eval_tokens\<close>, for one token. The \<^verbatim>\<open>try\<close> catches the
  \<^verbatim>\<open>ValueError\<close> of \<^verbatim>\<open>int(token)\<close> only: \<^verbatim>\<open>push\<close> raises \<^verbatim>\<open>IndexError\<close> or
  \<^verbatim>\<open>OverflowError\<close>, which pass through, and so does the \<^verbatim>\<open>RecursionError\<close> of
  \<^verbatim>\<open>mult\<close>. The operands popped are \<^verbatim>\<open>int64\<close> scalars; what is pushed back is their
  64-bit result. \<open>depth\<close> is the depth left for \<^verbatim>\<open>mult\<close>, as above; the other calls of
  the evaluator nest two deep at most and are taken to fit.
\<close>

definition eval_token :: "nat \<Rightarrow> string \<Rightarrow> MyStack \<Rightarrow> error + MyStack" where
  "eval_token depth token my_stack =
     (case py_int token of
        Some token_int \<Rightarrow> continue (push token_int my_stack)
      | None \<Rightarrow>
          (case pop my_stack of
             (Inl e, _) \<Rightarrow> Inl e
           | (Inr right_arg, s1) \<Rightarrow>
               (case pop s1 of
                  (Inl e, _) \<Rightarrow> Inl e
                | (Inr left_arg, s2) \<Rightarrow>
                    if token = ADDITION then
                      continue (push (sint (left_arg + right_arg)) s2)
                    else if token = SUBTRACTION then
                      continue (push (sint (left_arg - right_arg)) s2)
                    else if token = FLOOR then
                      continue (push (sint (floor_divide left_arg right_arg)) s2)
                    else if token = MULTIPLICATION then
                      (case mult_int64 depth left_arg right_arg of
                         Inl e \<Rightarrow> Inl e
                       | Inr product \<Rightarrow> continue (push (sint product) s2))
                    else Inl UnknownOperator)))"

fun eval_loop :: "nat \<Rightarrow> string list \<Rightarrow> MyStack \<Rightarrow> error + MyStack" where
  "eval_loop depth [] my_stack = Inr my_stack"
| "eval_loop depth (token # tokens) my_stack =
     (case eval_token depth token my_stack of
        Inl e \<Rightarrow> Inl e
      | Inr s \<Rightarrow> eval_loop depth tokens s)"

definition eval_tokens :: "nat \<Rightarrow> string list \<Rightarrow> error + int64" where
  "eval_tokens depth tokens =
     (case init 1 1000 of
        Inl e \<Rightarrow> Inl e
      | Inr my_stack \<Rightarrow>
          (case eval_loop depth tokens my_stack of
             Inl e \<Rightarrow> Inl e
           | Inr s \<Rightarrow>
               if top_of_stack s div 2 \<noteq> 0 then Inl MalformedExpression
               else fst (pop s)))"

definition eval :: "nat \<Rightarrow> string \<Rightarrow> error + int64" where
  "eval depth rpn_expression = eval_tokens depth (parse rpn_expression)"

section \<open>The stack as a container\<close>

text \<open>
  The shape every stack object built by \<^verbatim>\<open>MyStack(...)\<close> has, whatever is called on
  it afterwards: the array has \<open>capacity\<close> cells and the top lies within it.
\<close>

definition stack_inv :: "MyStack \<Rightarrow> bool" where
  "stack_inv s =
     (0 \<le> top_of_stack s \<and> top_of_stack s \<le> capacity s \<and> int (length (stack s)) = capacity s)"

text \<open>
  The calls a client can make on a stack object, and the object after a list of them. A
  call that raises leaves the object as the method left it.
\<close>

datatype stack_op = Clear | Push int | Pop

fun apply_op :: "stack_op \<Rightarrow> MyStack \<Rightarrow> MyStack" where
  "apply_op Clear s = snd (clear s)"
| "apply_op (Push v) s = snd (push v s)"
| "apply_op Pop s = snd (pop s)"

fun apply_ops :: "stack_op list \<Rightarrow> MyStack \<Rightarrow> MyStack" where
  "apply_ops [] s = s"
| "apply_ops (a # as) s = apply_ops as (apply_op a s)"

text \<open>
  The values a stack of capacity \<open>c\<close> logically holds, bottom first, told from the calls
  alone: a \<^verbatim>\<open>push\<close> adds one on top unless the stack is full or the value does not fit
  64 bits, a \<^verbatim>\<open>pop\<close> removes the top one, \<^verbatim>\<open>clear\<close> removes all.
\<close>

fun valid_after :: "int \<Rightarrow> stack_op \<Rightarrow> int64 list \<Rightarrow> int64 list" where
  "valid_after c Clear xs = []"
| "valid_after c (Push v) xs =
     (if int (length xs) < c \<and> in_int64 v then xs @ [word_of_int v] else xs)"
| "valid_after c Pop xs = butlast xs"

fun valid_elements :: "int \<Rightarrow> stack_op list \<Rightarrow> int64 list \<Rightarrow> int64 list" where
  "valid_elements c [] xs = xs"
| "valid_elements c (a # as) xs = valid_elements c as (valid_after c a xs)"

text \<open>The object \<open>s\<close> holds exactly the values \<open>xs\<close>, in its cells below the top.\<close>

definition holds :: "MyStack \<Rightarrow> int64 list \<Rightarrow> bool" where
  "holds s xs =
     (stack_inv s \<and> top_of_stack s = int (length xs) \<and> take (length xs) (stack s) = xs)"

section \<open>Facts about 64-bit integers\<close>

lemma sint_lt_int64: "sint (x::int64) < 9223372036854775808"
  using sint_lt [of x] by simp

lemma sint_ge_int64: "- 9223372036854775808 \<le> sint (x::int64)"
  using sint_ge [of x] by simp

lemma sint_eq_0_int64: "sint (x::int64) = 0 \<longleftrightarrow> x = 0"
  by (rule signed_eq_0_iff)

lemma sint_pred_int64: "0 < sint (x::int64) \<Longrightarrow> sint (x - 1) = sint x - 1"
  using sint_lt_int64 [of x] by (simp add: sint_word_diff signed_take_bit_int_eq_self)

lemma sint_neg_pred_int64:
  assumes "sint (x::int64) < 0"
  shows "sint (- x - 1) = - sint x - 1"
proof -
  have one: "signed_take_bit (63::nat) (1::int) = 1"
    by simp
  have "sint (- x - 1) = signed_take_bit 63 (sint (- x) - 1)"
    by (simp add: sint_word_diff)
  also have "\<dots> = signed_take_bit 63 (signed_take_bit 63 (- sint x) - signed_take_bit 63 1)"
    by (simp only: sint_word_minus one) simp
  also have "\<dots> = signed_take_bit 63 (- sint x - 1)"
    by (rule signed_take_bit_diff)
  also have "\<dots> = - sint x - 1"
    using assms sint_ge_int64 [of x] by (simp add: signed_take_bit_int_eq_self)
  finally show ?thesis .
qed

section \<open>Theorems about MyStack\<close>

lemma validate_capacity_iff: "validate_capacity c \<longleftrightarrow> 0 \<le> c \<and> c \<le> 100000"
  by (simp add: validate_capacity_def MAX_CAPACITY_def)

text \<open>
  C5: constructing a stack fails with \<open>InvalidCapacity\<close> exactly when the capacity is
  negative or above 100000, and for a capacity from 0 to 100000 it succeeds with an empty
  stack of that capacity (size 0).
\<close>

theorem init_capacity:
  "(init item c = Inl InvalidCapacity \<longleftrightarrow> c < 0 \<or> 100000 < c) \<and>
   (0 \<le> c \<and> c \<le> 100000 \<longrightarrow>
      (\<exists>s. init item c = Inr s \<and> top_of_stack s = 0 \<and> is_empty s \<and> capacity s = c \<and>
           stack s = replicate (nat c) 0))"
  by (auto simp: init_def clear_def is_empty_def validate_capacity_iff)

theorem init_capacity_witness:
  "(init 1 1000 = Inl InvalidCapacity \<longleftrightarrow> (1000::int) < 0 \<or> (100000::int) < 1000) \<and>
   (\<exists>s. init 1 1000 = Inr s \<and> top_of_stack s = 0 \<and> is_empty s \<and> capacity s = 1000 \<and>
        stack s = replicate (nat 1000) 0) \<and>
   init 1 (- 1) = Inl InvalidCapacity \<and> init 1 100001 = Inl InvalidCapacity"
  using init_capacity [of 1 1000] init_capacity [of 1 "- 1"] init_capacity [of 1 100001]
  by simp

text \<open>
  C4: \<open>push\<close> on a full stack (size equal to capacity) fails with \<open>StackOverflow\<close> and
  \<open>pop\<close> on an empty stack (size 0) fails with \<open>StackUnderflow\<close>; each leaves the
  stack, its size and its stored elements, as it was.
\<close>

theorem push_full_pop_empty:
  "(top_of_stack s = capacity s \<longrightarrow> push v s = (Inl StackOverflow, s)) \<and>
   (top_of_stack s = 0 \<longrightarrow> pop s = (Inl StackUnderflow, s))"
  by (simp add: push_def pop_def is_full_def is_empty_def)

theorem push_full_pop_empty_witness:
  "push 7 \<lparr>capacity = 2, default_item = 1, stack = [3, 4], top_of_stack = 2\<rparr> =
     (Inl StackOverflow, \<lparr>capacity = 2, default_item = 1, stack = [3, 4], top_of_stack = 2\<rparr>) \<and>
   pop \<lparr>capacity = 2, default_item = 1, stack = [3, 4], top_of_stack = 0\<rparr> =
     (Inl StackUnderflow, \<lparr>capacity = 2, default_item = 1, stack = [3, 4], top_of_stack = 0\<rparr>)"
  using push_full_pop_empty
          [of "\<lparr>capacity = 2, default_item = 1, stack = [3, 4], top_of_stack = 2\<rparr>" 7]
        push_full_pop_empty
          [of "\<lparr>capacity = 2, default_item = 1, stack = [3, 4], top_of_stack = 0\<rparr>" 7]
  by simp

lemma in_int64_sint: "in_int64 (sint (w::int64))"
  using sint_lt_int64 [of w] sint_ge_int64 [of w]
  by (simp add: in_int64_def min_int64_def max_int64_def)

lemma sint_word_of_int_int64: "in_int64 v \<Longrightarrow> sint (word_of_int v :: int64) = v"
  by (simp add: in_int64_def min_int64_def max_int64_def sint_sbintrunc'
      signed_take_bit_int_eq_self)

lemma init_inv: "init item c = Inr s \<Longrightarrow> stack_inv s \<and> top_of_stack s = 0 \<and> capacity s = c"
  by (auto simp: init_def clear_def stack_inv_def validate_capacity_def split: if_splits)

lemma push_inv:
  "stack_inv s \<Longrightarrow>
   push v s =
     (if top_of_stack s = capacity s then (Inl StackOverflow, s)
      else if in_int64 v then
        (Inr (), s\<lparr>stack := (stack s)[nat (top_of_stack s) := word_of_int v],
                    top_of_stack := top_of_stack s + 1\<rparr>)
      else (Inl OverflowError, s))"
  by (simp add: stack_inv_def push_def is_full_def np_setitem_def np_index_def)

lemma pop_inv:
  "stack_inv s \<Longrightarrow>
   pop s =
     (if top_of_stack s = 0 then (Inl StackUnderflow, s)
      else (Inr (stack s ! nat (top_of_stack s - 1)), s\<lparr>top_of_stack := top_of_stack s - 1\<rparr>))"
  by (simp add: stack_inv_def pop_def is_empty_def np_getitem_def np_index_def Let_def)

lemma clear_inv:
  "stack_inv s \<Longrightarrow>
   clear s = (Inr (), s\<lparr>stack := replicate (nat (capacity s)) 0, top_of_stack := 0\<rparr>)"
  by (simp add: stack_inv_def clear_def)

lemma stack_inv_push: "stack_inv s \<Longrightarrow> stack_inv (snd (push v s))"
  by (simp add: push_inv) (simp add: stack_inv_def)

lemma stack_inv_pop: "stack_inv s \<Longrightarrow> stack_inv (snd (pop s))"
  by (simp add: pop_inv) (simp add: stack_inv_def)

lemma holds_apply_op: "holds s xs \<Longrightarrow> holds (apply_op a s) (valid_after (capacity s) a xs)"
proof (cases a)
  case Clear
  assume "holds s xs"
  then show ?thesis
    using Clear by (simp add: holds_def clear_inv) (simp add: stack_inv_def)
next
  case (Push v)
  assume h: "holds s xs"
  then have inv: "stack_inv s" and top: "top_of_stack s = int (length xs)"
    and tk: "take (length xs) (stack s) = xs"
    by (simp_all add: holds_def)
  show ?thesis
  proof (cases "top_of_stack s < capacity s \<and> in_int64 v")
    case True
    then have lt: "length xs < length (stack s)"
      using inv top by (simp add: stack_inv_def)
    have "take (Suc (length xs)) ((stack s)[length xs := word_of_int v]) = xs @ [word_of_int v]"
      using lt tk by (simp add: take_Suc_conv_app_nth)
    moreover have "nat (int (length xs) + 1) = Suc (length xs)"
      by simp
    ultimately show ?thesis
      using True Push inv top
      by (simp add: holds_def push_inv) (simp add: stack_inv_def)
  next
    case False
    then show ?thesis
      using Push h inv top by (auto simp: push_inv stack_inv_def)
  qed
next
  case Pop
  assume h: "holds s xs"
  then have inv: "stack_inv s" and top: "top_of_stack s = int (length xs)"
    and tk: "take (length xs) (stack s) = xs"
    by (simp_all add: holds_def)
  show ?thesis
  proof (cases "xs = []")
    case True
    then show ?thesis using Pop h inv top by (simp add: pop_inv)
  next
    case False
    have le: "length xs \<le> length (stack s)"
      using inv top by (simp add: stack_inv_def)
    have s': "apply_op Pop s = s\<lparr>top_of_stack := top_of_stack s - 1\<rparr>"
      using inv top False by (simp add: pop_inv)
    have a: "stack_inv (s\<lparr>top_of_stack := top_of_stack s - 1\<rparr>)"
      using inv top False by (cases xs) (simp_all add: stack_inv_def)
    have b: "top_of_stack s - 1 = int (length (butlast xs))"
      using top False by (cases xs) simp_all
    have c: "take (length (butlast xs)) (stack s) = butlast xs"
    proof -
      have "butlast (take (length xs) (stack s)) = take (length xs - 1) (stack s)"
        by (rule butlast_take [OF le])
      then have "butlast xs = take (length xs - 1) (stack s)"
        by (simp only: tk)
      then show ?thesis
        unfolding length_butlast by (rule sym)
    qed
    show ?thesis
      unfolding Pop valid_after.simps s' holds_def using a b c by simp
  qed
qed

lemma capacity_apply_op: "capacity (apply_op a s) = capacity s"
  by (cases a)
    (auto simp: clear_def push_def pop_def Let_def split: sum.splits)

lemma holds_apply_ops:
  "holds s xs \<Longrightarrow> holds (apply_ops as s) (valid_elements (capacity s) as xs)"
proof (induction as arbitrary: s xs)
  case Nil
  then show ?case by simp
next
  case (Cons a as)
  from Cons.IH [OF holds_apply_op [OF Cons.prems, of a]]
  show ?case by (simp add: capacity_apply_op)
qed

lemma capacity_apply_ops: "capacity (apply_ops as s) = capacity s"
  by (induction as arbitrary: s) (simp_all add: capacity_apply_op)

text \<open>
  C8: on a stack object built by the constructor, after any list of \<^verbatim>\<open>clear\<close>,
  \<^verbatim>\<open>push\<close> and \<^verbatim>\<open>pop\<close> calls (the failed ones included), the size is between 0 and
  the capacity, and the cells below the size are exactly the values the stack logically
  holds: the size is the index one past the last valid element.
\<close>

theorem stack_size_invariant:
  assumes "init item c = Inr s0"
  shows "0 \<le> top_of_stack (apply_ops as s0) \<and>
         top_of_stack (apply_ops as s0) \<le> capacity (apply_ops as s0) \<and>
         capacity (apply_ops as s0) = c \<and>
         top_of_stack (apply_ops as s0) = int (length (valid_elements c as [])) \<and>
         take (nat (top_of_stack (apply_ops as s0))) (stack (apply_ops as s0)) =
           valid_elements c as []"
proof -
  let ?s = "apply_ops as s0" and ?v = "valid_elements c as []"
  have "holds s0 []" and c: "capacity s0 = c"
    using init_inv [OF assms] by (simp_all add: holds_def)
  from holds_apply_ops [OF this(1), of as] c have h: "holds ?s ?v"
    by simp
  then have inv: "stack_inv ?s" and top: "top_of_stack ?s = int (length ?v)"
    and tk: "take (length ?v) (stack ?s) = ?v"
    by (simp_all add: holds_def)
  have n: "nat (top_of_stack ?s) = length ?v"
    using top by simp
  have "0 \<le> top_of_stack ?s" "top_of_stack ?s \<le> capacity ?s"
    using inv by (simp_all add: stack_inv_def)
  moreover have "capacity ?s = c"
    using c by (simp add: capacity_apply_ops)
  moreover have "take (nat (top_of_stack ?s)) (stack ?s) = ?v"
    unfolding n by (rule tk)
  ultimately show ?thesis
    using top by blast
qed

theorem stack_size_invariant_witness:
  "init 1 2 = Inr \<lparr>capacity = 2, default_item = 1, stack = [0, 0], top_of_stack = 0\<rparr> \<and>
   valid_elements 2 [Push 5, Push 6, Push 7, Pop, Pop, Pop, Push 8] [] = [8] \<and>
   top_of_stack (apply_ops [Push 5, Push 6, Push 7, Pop, Pop, Pop, Push 8]
     \<lparr>capacity = 2, default_item = 1, stack = [0, 0], top_of_stack = 0\<rparr>) = 1 \<and>
   take 1 (stack (apply_ops [Push 5, Push 6, Push 7, Pop, Pop, Pop, Push 8]
     \<lparr>capacity = 2, default_item = 1, stack = [0, 0], top_of_stack = 0\<rparr>)) = [8]"
proof -
  have i: "init 1 2 = Inr \<lparr>capacity = 2, default_item = 1, stack = [0, 0], top_of_stack = 0\<rparr>"
    by (simp add: init_def clear_def validate_capacity_def MAX_CAPACITY_def numeral_2_eq_2)
  have v: "valid_elements 2 [Push 5, Push 6, Push 7, Pop, Pop, Pop, Push 8] [] = [8]"
    by (simp add: in_int64_def min_int64_def max_int64_def)
  let ?s = "apply_ops [Push 5, Push 6, Push 7, Pop, Pop, Pop, Push 8]
    \<lparr>capacity = 2, default_item = 1, stack = [0, 0], top_of_stack = 0\<rparr>"
  have t: "top_of_stack ?s = int (length [8::int64]) \<and>
      take (nat (top_of_stack ?s)) (stack ?s) = [8]"
    using stack_size_invariant [OF i, of "[Push 5, Push 6, Push 7, Pop, Pop, Pop, Push 8]"]
    unfolding v by blast
  then have top: "top_of_stack ?s = 1"
    by (simp del: apply_ops.simps)
  have tk: "take 1 (stack ?s) = [8]"
    using t unfolding top by (simp del: apply_ops.simps)
  show ?thesis
    using i v top tk by blast
qed

section \<open>Theorems about the multiply primitive\<close>

lemma mult_nonneg: "0 \<le> y \<Longrightarrow> mult x y = Some (x * y)"
proof (induction "nat y" arbitrary: y)
  case 0
  then have "y = 0" by simp
  then show ?case by (subst mult.simps) simp
next
  case (Suc n)
  then have pos: "0 < y" and n: "n = nat (y - 1)" and ge: "0 \<le> y - 1"
    by linarith+
  have ih: "mult x (y - 1) = Some (x * (y - 1))"
    using Suc.hyps(1) [OF n ge] .
  show ?case
    using pos ih by (subst mult.simps) (simp add: algebra_simps)
qed

text \<open>
  What \<open>mult\<close> computes on Python integers: the product, except that two negative
  operands give the square of the first.
\<close>

lemma mult_closed_form: "mult x y = Some (if x < 0 \<and> y < 0 then x * x else x * y)"
proof (cases "0 \<le> y")
  case True
  then show ?thesis by (simp add: mult_nonneg)
next
  case False
  then have neg: "y < 0" by simp
  consider "x = 0" | "x < 0" | "0 < x" by linarith
  then show ?thesis
  proof cases
    case 1
    then show ?thesis by (subst mult.simps) simp
  next
    case 2
    have "mult \<bar>x\<bar> (\<bar>x\<bar> - 1) = Some (\<bar>x\<bar> * (\<bar>x\<bar> - 1))"
      using 2 by (intro mult_nonneg) simp
    then show ?thesis
      using 2 neg by (subst mult.simps) (simp add: algebra_simps)
  next
    case 3
    have "mult y (x - 1) = Some (y * (x - 1))"
      using 3 by (intro mult_nonneg) simp
    then show ?thesis
      using 3 neg by (subst mult.simps) (simp add: algebra_simps)
  qed
qed

text \<open>
  C10: \<open>mult\<close> returns on every pair of integers. The recursion is defined without a
  termination argument, so this is a statement about the recursion as written. (A call
  with \<open>y < 0\<close> makes one call with a second operand that is not negative, and from
  there the second operand falls by 1 with every call until it is 0.)
\<close>

theorem mult_terminates: "\<exists>r. mult x y = Some r"
  by (simp add: mult_closed_form)

section \<open>Theorems about RpnCalculator\<close>

lemma continue_Inr: "continue r = Inr s' \<Longrightarrow> s' = snd r"
  by (cases r) (auto simp: continue_def split: sum.splits)

lemma stack_inv_eval_token:
  assumes "stack_inv s" "eval_token depth token s = Inr s'"
  shows "stack_inv s'"
proof (cases "py_int token")
  case (Some v)
  with assms(2) have "s' = snd (push v s)"
    by (simp add: eval_token_def continue_Inr)
  with assms(1) show ?thesis by (simp add: stack_inv_push)
next
  case None
  let ?s1 = "snd (pop s)" and ?s2 = "snd (pop (snd (pop s)))"
  have i2: "stack_inv ?s2"
    using assms(1) by (simp add: stack_inv_pop)
  from assms(2) None obtain w where "s' = snd (push w ?s2)"
    by (auto simp: eval_token_def split: prod.splits sum.splits if_splits dest!: continue_Inr)
  with i2 show ?thesis by (simp add: stack_inv_push)
qed

lemma stack_inv_eval_loop:
  "stack_inv s \<Longrightarrow> eval_loop depth tokens s = Inr s' \<Longrightarrow> stack_inv s'"
proof (induction tokens arbitrary: s)
  case Nil
  then show ?case by simp
next
  case (Cons token tokens)
  then show ?case
    by (auto split: sum.splits dest: stack_inv_eval_token)
qed

text \<open>The stack of \<^verbatim>\<open>eval_tokens\<close>, and the calls on it in closed form.\<close>

lemma init_1000:
  "init 1 1000 =
     Inr \<lparr>capacity = 1000, default_item = 1, stack = replicate 1000 0, top_of_stack = 0\<rparr>"
  by (simp add: init_def clear_def validate_capacity_def MAX_CAPACITY_def)

lemmas token_defs = py_int_def strip_def int_digits_def read_digits_def max_str_digits_def
  isdigit_def isspace_def int_space_def digit_value_def
  parse_def str_split_def ADDITION_def SUBTRACTION_def MULTIPLICATION_def FLOOR_def

lemma push_1000:
  "0 \<le> n \<Longrightarrow> n < 1000 \<Longrightarrow> length arr = 1000 \<Longrightarrow>
   push v \<lparr>capacity = 1000, default_item = 1, stack = arr, top_of_stack = n\<rparr> =
     (if in_int64 v then
        (Inr (), \<lparr>capacity = 1000, default_item = 1, stack = arr[nat n := word_of_int v],
                  top_of_stack = n + 1\<rparr>)
      else (Inl OverflowError,
            \<lparr>capacity = 1000, default_item = 1, stack = arr, top_of_stack = n\<rparr>))"
  by (subst push_inv) (simp_all add: stack_inv_def)

lemma pop_1000:
  "0 \<le> n \<Longrightarrow> n \<le> 1000 \<Longrightarrow> length arr = 1000 \<Longrightarrow>
   pop \<lparr>capacity = 1000, default_item = 1, stack = arr, top_of_stack = n\<rparr> =
     (if n = 0 then
        (Inl StackUnderflow,
         \<lparr>capacity = 1000, default_item = 1, stack = arr, top_of_stack = n\<rparr>)
      else (Inr (arr ! nat (n - 1)),
            \<lparr>capacity = 1000, default_item = 1, stack = arr, top_of_stack = n - 1\<rparr>))"
  by (subst pop_inv) (simp_all add: stack_inv_def)

lemmas run_defs = eval_def eval_tokens_def eval_token_def continue_def init_1000
  push_1000 pop_1000 in_int64_def min_int64_def max_int64_def floor_divide_def

text \<open>
  C3 (as amended): for every token sequence whose per-token processing completes,
  \<^verbatim>\<open>eval_tokens\<close> returns a value exactly when one value is left on the stack, and
  then it is that value; with two or more left it fails with \<open>MalformedExpression\<close>,
  and with none left it fails with \<open>StackUnderflow\<close>, raised by the final \<^verbatim>\<open>pop\<close>.
\<close>

theorem eval_tokens_final_check:
  assumes "init 1 1000 = Inr my_stack" and "eval_loop depth tokens my_stack = Inr s"
  shows "(top_of_stack s = 1 \<longrightarrow> eval_tokens depth tokens = Inr (stack s ! 0)) \<and>
         (top_of_stack s = 0 \<longrightarrow> eval_tokens depth tokens = Inl StackUnderflow) \<and>
         (top_of_stack s \<noteq> 1 \<and> top_of_stack s \<noteq> 0 \<longrightarrow>
            eval_tokens depth tokens = Inl MalformedExpression) \<and>
         ((\<exists>v. eval_tokens depth tokens = Inr v) \<longleftrightarrow> top_of_stack s = 1)"
proof -
  have inv: "stack_inv s"
    using assms init_inv stack_inv_eval_loop by blast
  then have ge: "0 \<le> top_of_stack s"
    by (simp add: stack_inv_def)
  have e: "eval_tokens depth tokens =
      (if top_of_stack s div 2 \<noteq> 0 then Inl MalformedExpression else fst (pop s))"
    using assms by (simp add: eval_tokens_def)
  consider "top_of_stack s = 0" | "top_of_stack s = 1" | "2 \<le> top_of_stack s"
    using ge by linarith
  then show ?thesis
  proof cases
    case 1
    then show ?thesis using inv by (simp add: e pop_inv)
  next
    case 2
    then show ?thesis using inv by (simp add: e pop_inv)
  next
    case 3
    then have "top_of_stack s div 2 \<noteq> 0" by presburger
    with 3 show ?thesis by (simp add: e)
  qed
qed

theorem eval_tokens_final_check_witness:
  "eval_tokens 1000 [''1''] = Inr 1 \<and>
   eval_tokens 1000 [''2'', ''3''] = Inl MalformedExpression \<and>
   eval_tokens 1000 [] = Inl StackUnderflow"
proof -
  let ?s0 = "\<lparr>capacity = 1000, default_item = 1, stack = replicate 1000 (0::int64),
    top_of_stack = 0\<rparr>"
  have a: "eval_loop 1000 [''1''] ?s0 = Inr (?s0\<lparr>stack := (replicate 1000 0)[0 := 1], top_of_stack := 1\<rparr>)"
    by (simp add: token_defs run_defs)
  have b: "eval_loop 1000 [''2'', ''3''] ?s0 =
      Inr (?s0\<lparr>stack := (replicate 1000 0)[0 := 2, 1 := 3], top_of_stack := 2\<rparr>)"
    by (simp add: token_defs run_defs)
  have c: "eval_loop 1000 [] ?s0 = Inr ?s0"
    by simp
  have "eval_tokens 1000 [''1''] = Inr 1"
    using eval_tokens_final_check [OF init_1000 a] by simp
  moreover have "eval_tokens 1000 [''2'', ''3''] = Inl MalformedExpression"
    using eval_tokens_final_check [OF init_1000 b] by simp
  moreover have "eval_tokens 1000 [] = Inl StackUnderflow"
    using eval_tokens_final_check [OF init_1000 c] by simp
  ultimately show ?thesis by blast
qed

text \<open>
  C3 as stated fails on the empty token sequence: its processing completes with no value
  on the stack, a size other than 1, and the failure is \<open>StackUnderflow\<close>, not
  \<open>MalformedExpression\<close>.
\<close>

theorem eval_tokens_no_value_left:
  "init 1 1000 =
     Inr \<lparr>capacity = 1000, default_item = 1, stack = replicate 1000 0, top_of_stack = 0\<rparr> \<and>
   eval_loop 1000 [] \<lparr>capacity = 1000, default_item = 1, stack = replicate 1000 0, top_of_stack = 0\<rparr> =
     Inr \<lparr>capacity = 1000, default_item = 1, stack = replicate 1000 0, top_of_stack = 0\<rparr> \<and>
   top_of_stack
     \<lparr>capacity = 1000, default_item = 1, stack = replicate 1000 (0::int64), top_of_stack = 0\<rparr> \<noteq> 1 \<and>
   eval_tokens 1000 [] = Inl StackUnderflow \<and>
   eval_tokens 1000 [] \<noteq> Inl MalformedExpression"
  by (simp add: run_defs)

text \<open>
  C7: the empty string has no tokens, and evaluating it fails with \<open>StackUnderflow\<close>.
\<close>

theorem eval_empty_string:
  "parse '''' = [] \<and> eval depth '''' = Inl StackUnderflow"
  by (simp add: token_defs run_defs)

text \<open>
  C9: the stack stores 64-bit integers. An operand of \<open>2^63\<close> makes the evaluation fail
  with \<open>OverflowError\<close>, and \<open>(2^63 - 1) + 1\<close> evaluates to \<open>-2^63\<close>, not to the sum.
\<close>

theorem int64_storage:
  "eval depth ''9223372036854775808'' = Inl OverflowError \<and>
   eval depth ''9223372036854775807 1 +'' = Inr (- 9223372036854775808) \<and>
   sint (- 9223372036854775808 :: int64) = - 9223372036854775808 \<and>
   (9223372036854775807 + 1 :: int) = 9223372036854775808"
  by (simp add: token_defs run_defs)

lemma word_of_int_sint_int64: "word_of_int (sint (w::int64)) = w"
  by simp

lemma py_int_operators:
  "py_int ''+'' = None" "py_int ''-'' = None" "py_int ''*'' = None" "py_int ''//'' = None"
  by (simp_all add: py_int_def strip_def int_digits_def read_digits_def max_str_digits_def
      isdigit_def int_space_def)

text \<open>Two operands that fit 64 bits, then a token that is not an integer.\<close>

lemma eval_tokens_binary:
  assumes "py_int ta = Some a" "py_int tb = Some b" "in_int64 a" "in_int64 b"
    and "py_int operator = None"
  shows "eval_tokens depth [ta, tb, operator] =
    (if operator = ADDITION then Inr (word_of_int a + word_of_int b)
     else if operator = SUBTRACTION then Inr (word_of_int a - word_of_int b)
     else if operator = FLOOR then Inr (floor_divide (word_of_int a) (word_of_int b))
     else if operator = MULTIPLICATION then mult_int64 depth (word_of_int a) (word_of_int b)
     else Inl UnknownOperator)"
proof (cases "mult_int64 depth (word_of_int a) (word_of_int b)")
  case (Inl e)
  with assms show ?thesis
    by (simp add: eval_tokens_def eval_token_def continue_def init_1000 push_1000 pop_1000
        in_int64_sint)
next
  case (Inr product)
  with assms show ?thesis
    by (simp add: eval_tokens_def eval_token_def continue_def init_1000 push_1000 pop_1000
        in_int64_sint)
qed

text \<open>A second operand that is not negative: one call for each unit of it, and one more.\<close>

lemma mult_int64_nonneg:
  "0 \<le> sint y \<Longrightarrow> sint y < int depth \<Longrightarrow> mult_int64 depth x y = Inr (x * y)"
proof (induction depth arbitrary: y)
  case 0
  then show ?case by simp
next
  case (Suc depth)
  show ?case
  proof (cases "y = 0 \<or> x = 0")
    case True
    then show ?thesis by auto
  next
    case False
    then have pos: "0 < sint y"
      using Suc.prems(1) sint_eq_0_int64 [of y] by simp
    then have p: "sint (y - 1) = sint y - 1"
      by (rule sint_pred_int64)
    have "mult_int64 depth x (y - 1) = Inr (x * (y - 1))"
      using Suc.prems pos by (intro Suc.IH) (simp_all add: p)
    then show ?thesis
      using False pos by (simp add: word_sless_alt algebra_simps)
  qed
qed

text \<open>And with less depth than that, the recursion ends in \<open>RecursionError\<close>.\<close>

lemma mult_int64_nonneg_deep:
  "x \<noteq> 0 \<Longrightarrow> 0 \<le> sint y \<Longrightarrow> int depth \<le> sint y \<Longrightarrow> mult_int64 depth x y = Inl RecursionError"
proof (induction depth arbitrary: y)
  case 0
  then show ?case by simp
next
  case (Suc depth)
  then have pos: "0 < sint y" by simp
  then have p: "sint (y - 1) = sint y - 1"
    by (rule sint_pred_int64)
  have y0: "y \<noteq> 0"
    using pos sint_eq_0_int64 [of y] by simp
  have "mult_int64 depth x (y - 1) = Inl RecursionError"
    using Suc.prems pos by (intro Suc.IH) (simp_all add: p)
  then show ?case
    using Suc.prems(1) y0 pos by (simp add: word_sless_alt)
qed

text \<open>
  What \<open>mult\<close> computes on \<^verbatim>\<open>int64\<close> operands when the depth suffices: the 64-bit
  product, except that two negative operands give the 64-bit square of the first. The
  recursion runs on the second operand, or on the first when the second is negative.
\<close>

lemma mult_int64_closed_form:
  assumes "(if sint y < 0 then \<bar>sint x\<bar> else sint y) < int depth"
  shows "mult_int64 depth x y = Inr (if x <s 0 \<and> y <s 0 then x * x else x * y)"
proof (cases "sint y < 0")
  case False
  then show ?thesis
    using assms mult_int64_nonneg [of y depth x] by (simp add: word_sless_alt)
next
  case neg: True
  obtain d where d: "depth = Suc d"
    using assms neg by (cases depth) auto
  have y0: "y \<noteq> 0"
    using neg sint_eq_0_int64 [of y] by simp
  consider "x = 0" | "sint x < 0" | "0 < sint x"
    using sint_eq_0_int64 [of x] by linarith
  then show ?thesis
  proof cases
    case 1
    then show ?thesis by (simp add: d)
  next
    case 2
    have p: "sint (- x - 1) = - sint x - 1"
      using 2 by (rule sint_neg_pred_int64)
    have "mult_int64 d (- x) (- x - 1) = Inr (- x * (- x - 1))"
      using assms neg 2 sint_ge_int64 [of x] by (intro mult_int64_nonneg) (simp_all add: p d)
    then show ?thesis
      using 2 neg y0 sint_eq_0_int64 [of x]
      by (simp add: d word_sless_alt abs_int64_def algebra_simps)
  next
    case 3
    have p: "sint (x - 1) = sint x - 1"
      using 3 by (rule sint_pred_int64)
    have "mult_int64 d y (x - 1) = Inr (y * (x - 1))"
      using assms neg 3 by (intro mult_int64_nonneg) (simp_all add: p d)
    then show ?thesis
      using 3 neg y0 sint_eq_0_int64 [of x]
      by (simp add: d word_sless_alt algebra_simps)
  qed
qed

text \<open>A quotient of two 64-bit integers fits 64 bits, but for \<open>-2^63 div -1\<close>.\<close>

lemma div_bounds_pos:
  assumes "0 < (b::int)"
  shows "(0 \<le> a \<longrightarrow> 0 \<le> a div b \<and> a div b \<le> a) \<and> (a < 0 \<longrightarrow> a \<le> a div b \<and> a div b < 0)"
proof -
  have b1: "1 \<le> b" using assms by simp
  have "0 \<le> a \<Longrightarrow> a div b \<le> a div 1"
    by (rule zdiv_mono2) (use b1 in simp_all)
  moreover have "a < 0 \<Longrightarrow> a div 1 \<le> a div b"
    by (rule zdiv_mono2_neg) (use b1 in simp_all)
  ultimately show ?thesis
    using assms by (simp add: pos_imp_zdiv_nonneg_iff div_neg_pos_less0)
qed

lemma floor_in_int64:
  assumes "in_int64 a" "in_int64 b" "b \<noteq> 0" "\<not> (a = min_int64 \<and> b = - 1)"
  shows "in_int64 (a div b)"
proof (cases "0 < b")
  case True
  then show ?thesis
    using div_bounds_pos [OF True, of a] assms(1)
    by (cases "0 \<le> a") (auto simp: in_int64_def min_int64_def max_int64_def)
next
  case False
  then have nb: "0 < - b" using assms(3) by simp
  have eq: "a div b = (- a) div (- b)" by simp
  show ?thesis
  proof (cases "b = - 1")
    case True
    then have "a div b = - a" by simp
    then show ?thesis
      using assms(1,4) True by (auto simp: in_int64_def min_int64_def max_int64_def)
  next
    case nm: False
    then have b2: "2 \<le> - b" using nb by simp
    show ?thesis
    proof (cases "0 \<le> - a")
      case True
      have "(- a) div (- b) \<le> (- a) div 2"
        by (rule zdiv_mono2) (use True b2 in simp_all)
      moreover have "0 \<le> (- a) div (- b)"
        using True nb by (simp add: pos_imp_zdiv_nonneg_iff del: div_minus_minus)
      moreover have "(- a) div 2 \<le> 9223372036854775807"
        using assms(1) unfolding in_int64_def min_int64_def max_int64_def by arith
      ultimately show ?thesis
        using assms(1) unfolding eq
        by (simp add: in_int64_def min_int64_def max_int64_def del: div_minus_minus)
    next
      case False
      then show ?thesis
        using div_bounds_pos [OF nb, of "- a"] assms(1) unfolding eq
        by (simp add: in_int64_def min_int64_def max_int64_def del: div_minus_minus)
    qed
  qed
qed

lemma sint_floor_divide:
  assumes "b \<noteq> 0" "\<not> (sint a = min_int64 \<and> sint b = - 1)"
  shows "sint (floor_divide a b) = sint a div sint b"
proof -
  have nz: "sint b \<noteq> 0"
    using assms(1) by (simp add: sint_eq_0_int64)
  have "\<not> (a = word_of_int min_int64 \<and> b = - 1)"
    using assms(2) by (auto simp: min_int64_def)
  then have "floor_divide a b = word_of_int (sint a div sint b)"
    using assms(1) by (auto simp: floor_divide_def)
  moreover have "in_int64 (sint a div sint b)"
    using floor_in_int64 [OF in_int64_sint in_int64_sint nz assms(2)] .
  ultimately show ?thesis
    by (simp add: sint_word_of_int_int64)
qed

text \<open>
  C6 (as amended): on a stack whose two top values are \<open>left_arg\<close> and, above it,
  \<open>right_arg\<close>, the token \<open>//\<close> replaces them by one value. For a non-zero
  \<open>right_arg\<close> it is the quotient rounded towards minus infinity (so \<open>-7 // 2\<close> is
  \<open>-4\<close>), except for \<open>-2^63 // -1\<close>, which gives \<open>-2^63\<close>. For a zero \<open>right_arg\<close>
  it is 0 and the evaluation goes on: no error is raised.
\<close>

theorem floor_operator:
  assumes "stack_inv s" and "2 \<le> top_of_stack s"
    and "right_arg = stack s ! nat (top_of_stack s - 1)"
    and "left_arg = stack s ! nat (top_of_stack s - 2)"
  shows "eval_token depth ''//'' s =
           Inr (s\<lparr>stack := (stack s)[nat (top_of_stack s - 2) := floor_divide left_arg right_arg],
                  top_of_stack := top_of_stack s - 1\<rparr>) \<and>
         (right_arg \<noteq> 0 \<and> \<not> (sint left_arg = min_int64 \<and> sint right_arg = - 1) \<longrightarrow>
            sint (floor_divide left_arg right_arg) = sint left_arg div sint right_arg) \<and>
         (right_arg = 0 \<longrightarrow> floor_divide left_arg right_arg = 0) \<and>
         (sint left_arg = min_int64 \<and> sint right_arg = - 1 \<longrightarrow>
            sint (floor_divide left_arg right_arg) = min_int64)"
proof -
  let ?s1 = "s\<lparr>top_of_stack := top_of_stack s - 1\<rparr>"
  let ?s2 = "s\<lparr>top_of_stack := top_of_stack s - 2\<rparr>"
  have p1: "pop s = (Inr right_arg, ?s1)"
    using assms by (simp add: pop_inv)
  have i1: "stack_inv ?s1"
    using assms(1,2) by (simp add: stack_inv_def)
  have p2: "pop ?s1 = (Inr left_arg, ?s2)"
    using assms(2,4) by (simp add: pop_inv [OF i1])
  have i2: "stack_inv ?s2"
    using assms(1,2) by (simp add: stack_inv_def)
  have p3: "push (sint (floor_divide left_arg right_arg)) ?s2 =
      (Inr (), s\<lparr>stack := (stack s)[nat (top_of_stack s - 2) := floor_divide left_arg right_arg],
                 top_of_stack := top_of_stack s - 1\<rparr>)"
    using assms(1,2) by (simp add: push_inv [OF i2] in_int64_sint) (simp add: stack_inv_def)
  have "eval_token depth ''//'' s =
      Inr (s\<lparr>stack := (stack s)[nat (top_of_stack s - 2) := floor_divide left_arg right_arg],
             top_of_stack := top_of_stack s - 1\<rparr>)"
    by (simp add: eval_token_def py_int_operators p1 p2 p3 continue_def
        ADDITION_def SUBTRACTION_def FLOOR_def)
  moreover have "right_arg = 0 \<longrightarrow> floor_divide left_arg right_arg = 0"
    by (simp add: floor_divide_def)
  moreover have "sint left_arg = min_int64 \<and> sint right_arg = - 1 \<longrightarrow>
      sint (floor_divide left_arg right_arg) = min_int64"
  proof
    assume a: "sint left_arg = min_int64 \<and> sint right_arg = - 1"
    then have "left_arg = word_of_int min_int64" "right_arg = - 1"
      using word_of_int_sint_int64 [of left_arg] word_of_int_sint_int64 [of right_arg]
      by simp_all
    then show "sint (floor_divide left_arg right_arg) = min_int64"
      by (simp add: floor_divide_def min_int64_def)
  qed
  ultimately show ?thesis
    using sint_floor_divide [of right_arg left_arg] by blast
qed

theorem floor_operator_witness:
  "eval_token 1000 ''//'' \<lparr>capacity = 4, default_item = 1, stack = [- 7, 2, 0, 0], top_of_stack = 2\<rparr> =
     Inr \<lparr>capacity = 4, default_item = 1, stack = [- 4, 2, 0, 0], top_of_stack = 1\<rparr> \<and>
   eval_token 1000 ''//'' \<lparr>capacity = 4, default_item = 1, stack = [5, 0, 0, 0], top_of_stack = 2\<rparr> =
     Inr \<lparr>capacity = 4, default_item = 1, stack = [0, 0, 0, 0], top_of_stack = 1\<rparr>"
proof -
  let ?s = "\<lparr>capacity = 4, default_item = 1, stack = [- 7, 2, 0, 0 :: int64], top_of_stack = 2\<rparr>"
  let ?z = "\<lparr>capacity = 4, default_item = 1, stack = [5, 0, 0, 0 :: int64], top_of_stack = 2\<rparr>"
  have "stack_inv ?s" "stack_inv ?z"
    by (simp_all add: stack_inv_def)
  note t1 = floor_operator [OF this(1), of 2 "- 7"] and t2 = floor_operator [OF this(2), of 0 5]
  from t1 have e1: "eval_token 1000 ''//'' ?s =
      Inr \<lparr>capacity = 4, default_item = 1, stack = [floor_divide (- 7) 2, 2, 0, 0],
        top_of_stack = 1\<rparr>"
    and v1: "sint (floor_divide (- 7) 2) = - 4"
    by (simp_all add: min_int64_def numeral_2_eq_2)
  have "floor_divide (- 7) 2 = word_of_int (sint (floor_divide (- 7) 2))"
    by simp
  then have w1: "floor_divide (- 7) 2 = - 4"
    unfolding v1 by simp
  from t2 have e2: "eval_token 1000 ''//'' ?z =
      Inr \<lparr>capacity = 4, default_item = 1, stack = [floor_divide 5 0, 0, 0, 0],
        top_of_stack = 1\<rparr>"
    and w2: "floor_divide 5 0 = 0"
    by (simp_all add: numeral_2_eq_2)
  show ?thesis
    using e1 e2 unfolding w1 w2 by simp
qed

text \<open>
  C6 as stated fails on a zero divisor: \<open>5 0 //\<close> evaluates to 0 instead of failing with
  a division error.
\<close>

theorem division_by_zero_returns:
  "py_int ''5'' = Some 5 \<and> py_int ''0'' = Some 0 \<and> eval_tokens 1000 [''5'', ''0'', ''//''] = Inr 0"
  by (simp add: token_defs run_defs)

lemma sint_add_int64:
  "in_int64 (a + b) \<Longrightarrow> sint (word_of_int a + word_of_int b :: int64) = a + b"
  using sint_word_of_int_int64 [of "a + b"] by simp

lemma sint_diff_int64:
  "in_int64 (a - b) \<Longrightarrow> sint (word_of_int a - word_of_int b :: int64) = a - b"
  using sint_word_of_int_int64 [of "a - b"] by simp

lemma sint_times_int64:
  "in_int64 (a * b) \<Longrightarrow> sint (word_of_int a * word_of_int b :: int64) = a * b"
  using sint_word_of_int_int64 [of "a * b"] by simp

lemma sless_word_of_int_int64:
  "in_int64 a \<Longrightarrow> (word_of_int a :: int64) <s 0 \<longleftrightarrow> a < 0"
  by (simp add: word_sless_alt sint_word_of_int_int64)

text \<open>Every integer has a token that reads as it: its decimal rendering.\<close>

lemma digit_char_props:
  assumes "d < 10"
  shows "plain_digit (digit_char d)" and "digit_value (digit_char d) = d"
proof -
  have "(of_char (digit_char d) :: nat) = 48 + d"
    using assms by (simp add: digit_char_def)
  then show "plain_digit (digit_char d)" and "digit_value (digit_char d) = d"
    using assms by (auto simp: plain_digit_def isdigit_def int_space_def digit_value_def)
qed

lemma digits_value_snoc:
  "\<forall>x\<in>set ds. isdigit x \<Longrightarrow> isdigit c \<Longrightarrow>
   digits_value acc (ds @ [c]) =
     map_option (\<lambda>v. 10 * v + digit_value c) (digits_value acc ds)"
proof (induction ds arbitrary: acc)
  case Nil
  then show ?case by simp
next
  case (Cons x xs)
  then show ?case by (cases xs) simp_all
qed

lemma str_nat_digits: "str_nat n \<noteq> [] \<and> (\<forall>x\<in>set (str_nat n). plain_digit x)"
proof (induction n rule: str_nat.induct)
  case (1 n)
  then show ?case
    by (subst (1 2) str_nat.simps) (auto simp: digit_char_props)
qed

lemma read_digits_str_nat: "read_digits (str_nat n) = Some n"
proof (induction n rule: str_nat.induct)
  case (1 n)
  show ?case
  proof (cases "n < 10")
    case True
    then show ?thesis
      using digit_char_props [of n]
      by (subst str_nat.simps) (simp add: read_digits_def plain_digit_def)
  next
    case False
    obtain x xs where xs: "str_nat (n div 10) = x # xs"
      using str_nat_digits [of "n div 10"] by (cases "str_nat (n div 10)") auto
    have dig: "isdigit x" "\<forall>y\<in>set xs. isdigit y"
      using str_nat_digits [of "n div 10"] by (simp_all add: xs plain_digit_def)
    have c: "isdigit (digit_char (n mod 10))" "digit_value (digit_char (n mod 10)) = n mod 10"
      using digit_char_props [of "n mod 10"] by (simp_all add: plain_digit_def)
    have ih: "digits_value (digit_value x) xs = Some (n div 10)"
      using "1.IH" [OF False] dig(1) by (simp add: xs read_digits_def)
    have "str_nat n = x # xs @ [digit_char (n mod 10)]"
      using False by (subst str_nat.simps) (simp add: xs)
    then show ?thesis
      using dig c ih by (simp add: read_digits_def digits_value_snoc)
  qed
qed

lemma length_str_nat: "n < 10 ^ k \<Longrightarrow> 0 < k \<Longrightarrow> length (str_nat n) \<le> k"
proof (induction k arbitrary: n)
  case 0
  then show ?case by simp
next
  case (Suc k)
  show ?case
  proof (cases "n < 10")
    case True
    then show ?thesis by (subst str_nat.simps) simp
  next
    case False
    then have k: "0 < k"
      using Suc.prems(1) by (cases k) simp_all
    have "n div 10 < 10 ^ k"
      using Suc.prems(1) by (simp add: less_mult_imp_div_less mult.commute)
    then have "length (str_nat (n div 10)) \<le> k"
      using k by (rule Suc.IH)
    then show ?thesis
      using False by (subst str_nat.simps) simp
  qed
qed

lemma int_digits_str_nat:
  assumes "length (str_nat n) \<le> 4300"
  shows "int_digits (str_nat n) = Some n"
proof -
  have "\<forall>x\<in>set (str_nat n). isdigit x"
    using str_nat_digits [of n] by (simp add: plain_digit_def)
  then have "filter isdigit (str_nat n) = str_nat n"
    by (simp add: filter_id_conv)
  then show ?thesis
    using assms by (simp add: int_digits_def max_str_digits_def read_digits_str_nat)
qed

lemma strip_no_space:
  assumes "s \<noteq> []" "\<not> int_space (hd s)" "\<not> int_space (last s)"
  shows "strip s = s"
proof -
  have "dropWhile int_space s = s"
    using assms(1,2) by (cases s) simp_all
  moreover have "dropWhile int_space (rev s) = rev s"
    using assms(1,3) by (cases "rev s") (simp_all add: last_rev [symmetric] del: last_rev)
  ultimately show ?thesis
    by (simp add: strip_def)
qed

lemma py_int_str_nat:
  assumes "length (str_nat n) \<le> 4300"
  shows "py_int (str_nat n) = Some (int n)"
    and "py_int (CHR ''-'' # str_nat n) = Some (- int n)"
proof -
  obtain x xs where xs: "str_nat n = x # xs"
    using str_nat_digits [of n] by (cases "str_nat n") auto
  have pd: "plain_digit x" "plain_digit (last (x # xs))"
    using str_nat_digits [of n] last_in_set [of "x # xs"] by (simp_all add: xs)
  have ns: "\<not> int_space (CHR ''-'')"
    by (simp add: int_space_def)
  have d: "int_digits (x # xs) = Some n"
    using int_digits_str_nat [OF assms] by (simp add: xs)
  have "strip (x # xs) = x # xs"
    using pd by (intro strip_no_space) (simp_all add: plain_digit_def)
  then show "py_int (str_nat n) = Some (int n)"
    using pd(1) d by (simp add: py_int_def xs plain_digit_def)
  have "strip (CHR ''-'' # x # xs) = CHR ''-'' # x # xs"
    using pd ns by (intro strip_no_space) (simp_all add: plain_digit_def)
  then show "py_int (CHR ''-'' # str_nat n) = Some (- int n)"
    using d by (simp add: py_int_def xs)
qed

lemma py_int_str_int:
  assumes "in_int64 a"
  shows "py_int (str_int a) = Some a"
proof -
  have "nat \<bar>a\<bar> < 10 ^ 19"
    using assms by (simp add: in_int64_def min_int64_def max_int64_def) arith
  then have "length (str_nat (nat \<bar>a\<bar>)) \<le> 19"
    by (rule length_str_nat) simp
  then have len: "length (str_nat (nat \<bar>a\<bar>)) \<le> 4300"
    by simp
  show ?thesis
  proof (cases "a < 0")
    case True
    then have n: "nat \<bar>a\<bar> = nat (- a)"
      by simp
    have "py_int (CHR ''-'' # str_nat (nat (- a))) = Some (- int (nat (- a)))"
      using len unfolding n by (rule py_int_str_nat(2))
    then show ?thesis
      using True by (simp add: str_int_def)
  next
    case False
    then have n: "nat \<bar>a\<bar> = nat a"
      by simp
    have "py_int (str_nat (nat a)) = Some (int (nat a))"
      using len unfolding n by (rule py_int_str_nat(1))
    then show ?thesis
      using False by (simp add: str_int_def)
  qed
qed

text \<open>
  C1 (as amended): for tokens that read as the integers \<open>a\<close> and \<open>b\<close>, both within
  the signed 64-bit range, evaluating the three tokens \<open>a b OP\<close> succeeds and returns
  \<open>a OP b\<close>, with \<open>a\<close> on the left, whenever that result is within the 64-bit range
  too: for \<open>+\<close> and \<open>-\<close>, for \<open>//\<close> with \<open>b\<close> not zero, and for \<open>*\<close> when \<open>a\<close> and
  \<open>b\<close> are not both negative and the recursion of \<^verbatim>\<open>mult\<close> fits the depth the
  interpreter allows: it nests one call more than \<open>b\<close>, or than \<open>a\<close> when \<open>b\<close> is
  negative. For a positive \<open>b\<close> beyond that depth and \<open>a\<close> not zero, \<open>*\<close> fails with
  \<open>RecursionError\<close>.
\<close>

theorem eval_two_operands:
  assumes "py_int ta = Some a" and "py_int tb = Some b" and "in_int64 a" and "in_int64 b"
  shows "(in_int64 (a + b) \<longrightarrow>
            (\<exists>w. eval_tokens depth [ta, tb, ''+''] = Inr w \<and> sint w = a + b)) \<and>
         (in_int64 (a - b) \<longrightarrow>
            (\<exists>w. eval_tokens depth [ta, tb, ''-''] = Inr w \<and> sint w = a - b)) \<and>
         (\<not> (a < 0 \<and> b < 0) \<and> in_int64 (a * b) \<and> (if b < 0 then a else b) < int depth \<longrightarrow>
            (\<exists>w. eval_tokens depth [ta, tb, ''*''] = Inr w \<and> sint w = a * b)) \<and>
         (a \<noteq> 0 \<and> 0 < b \<and> int depth \<le> b \<longrightarrow>
            eval_tokens depth [ta, tb, ''*''] = Inl RecursionError) \<and>
         (b \<noteq> 0 \<and> in_int64 (a div b) \<longrightarrow>
            (\<exists>w. eval_tokens depth [ta, tb, ''//''] = Inr w \<and> sint w = a div b))"
proof -
  note bin = eval_tokens_binary [OF assms]
  have sa: "sint (word_of_int a :: int64) = a" and sb: "sint (word_of_int b :: int64) = b"
    using assms(3,4) by (simp_all add: sint_word_of_int_int64)
  have add: "eval_tokens depth [ta, tb, ''+''] = Inr (word_of_int a + word_of_int b)"
    using bin [of "''+''"] by (simp add: py_int_operators ADDITION_def)
  have sub: "eval_tokens depth [ta, tb, ''-''] = Inr (word_of_int a - word_of_int b)"
    using bin [of "''-''"] by (simp add: py_int_operators ADDITION_def SUBTRACTION_def)
  have mul: "eval_tokens depth [ta, tb, ''*''] = mult_int64 depth (word_of_int a) (word_of_int b)"
    using bin [of "''*''"]
    by (simp add: py_int_operators ADDITION_def SUBTRACTION_def FLOOR_def MULTIPLICATION_def)
  have flo: "eval_tokens depth [ta, tb, ''//''] =
      Inr (floor_divide (word_of_int a) (word_of_int b))"
    using bin [of "''//''"]
    by (simp add: py_int_operators ADDITION_def SUBTRACTION_def FLOOR_def)
  have m: "mult_int64 depth (word_of_int a) (word_of_int b) =
      Inr (word_of_int a * word_of_int b)"
    if "\<not> (a < 0 \<and> b < 0)" "(if b < 0 then a else b) < int depth"
  proof -
    have "(if sint (word_of_int b :: int64) < 0 then \<bar>sint (word_of_int a :: int64)\<bar>
        else sint (word_of_int b :: int64)) < int depth"
      using that unfolding sa sb by (simp split: if_splits)
    from mult_int64_closed_form [OF this] that(1) show ?thesis
      by (auto simp: word_sless_alt sa sb)
  qed
  have r: "mult_int64 depth (word_of_int a) (word_of_int b) = Inl RecursionError"
    if "a \<noteq> 0" "0 < b" "int depth \<le> b"
  proof -
    have "(word_of_int a :: int64) \<noteq> 0"
      using that(1) sa sint_eq_0_int64 [of "word_of_int a"] by auto
    then show ?thesis
      using that(2,3) by (intro mult_int64_nonneg_deep) (simp_all add: sb)
  qed
  have f: "sint (floor_divide (word_of_int a) (word_of_int b)) = a div b"
    if "b \<noteq> 0" "in_int64 (a div b)"
  proof -
    have "\<not> (a = min_int64 \<and> b = - 1)"
      using that(2) by (auto simp: in_int64_def min_int64_def max_int64_def)
    moreover have "(word_of_int b :: int64) \<noteq> 0"
      using that(1) sb sint_eq_0_int64 [of "word_of_int b"] by auto
    ultimately show ?thesis
      using sint_floor_divide [of "word_of_int b" "word_of_int a"] by (simp add: sa sb)
  qed
  show ?thesis
    using add sub mul flo m r f
    by (simp add: sint_add_int64 sint_diff_int64 sint_times_int64)
qed

theorem eval_two_operands_witness:
  "(\<exists>w. eval_tokens 1000 [''15'', ''5'', ''+''] = Inr w \<and> sint w = 20) \<and>
   (\<exists>w. eval_tokens 1000 [''15'', ''5'', ''-''] = Inr w \<and> sint w = 10) \<and>
   (\<exists>w. eval_tokens 1000 [''15'', ''5'', ''*''] = Inr w \<and> sint w = 75) \<and>
   (\<exists>w. eval_tokens 1000 [''15'', ''5'', ''//''] = Inr w \<and> sint w = 3) \<and>
   eval_tokens 1000 [''2'', ''1000'', ''*''] = Inl RecursionError"
proof -
  have a: "py_int ''15'' = Some 15" "py_int ''5'' = Some 5" "in_int64 15" "in_int64 5"
    by (simp_all add: token_defs in_int64_def min_int64_def max_int64_def)
  have b: "py_int ''2'' = Some 2" "py_int ''1000'' = Some 1000" "in_int64 2" "in_int64 1000"
    by (simp_all add: token_defs in_int64_def min_int64_def max_int64_def)
  from eval_two_operands [OF a, of 1000] eval_two_operands [OF b, of 1000] show ?thesis
    by (simp add: in_int64_def min_int64_def max_int64_def)
qed

text \<open>
  C1 as stated fails on an operand outside the 64-bit range: \<open>9223372036854775808 1 +\<close>
  does not return the sum, it fails with \<open>OverflowError\<close>.
\<close>

theorem operand_out_of_range:
  "py_int ''9223372036854775808'' = Some 9223372036854775808 \<and>
   py_int ''1'' = Some 1 \<and>
   eval_tokens 1000 [''9223372036854775808'', ''1'', ''+''] = Inl OverflowError"
  by (simp add: token_defs run_defs)

text \<open>
  C2 (the code departs from the claim): \<open>mult(-5, -27)\<close> returns 25, the square of the
  first operand, where the product is 135, and so does the expression \<open>-5 -27 *\<close>, at
  every depth that its six nested calls fit. The branch for two negative operands takes
  both absolute values from \<open>x\<close>.
\<close>

theorem mult_both_negative:
  "mult (- 5) (- 27) = Some 25 \<and> eval (depth + 6) ''-5 -27 *'' = Inr 25 \<and>
   (- 5) * (- 27) = (135::int)"
  by (simp add: mult_closed_form token_defs run_defs mult_int64_closed_form word_sless_alt)

end
